theory Spec2Isabelle
  imports Complex_Main "HOL-Library.AList" "HOL-Library.Sublist"
begin

section \<open>Data model\<close>

text \<open>
  The payload of the geodata service is a dictionary with one key \<open>elements\<close>, a list of
  element dictionaries. Every element of the service carries \<open>type\<close> and \<open>id\<close>; the keys
  \<open>tags\<close>, \<open>lat\<close>/\<open>lon\<close> and \<open>members\<close> are present on some elements only, so they are
  optional fields here and reading an absent one is the \<open>KeyError\<close> of the source.
  A tag dictionary is a map from strings to strings. Coordinates are JSON numbers; a
  coordinate is kept as the rational number it denotes. The program only stores and
  copies coordinates, except for the centre of the map, whose arithmetic is a parameter
  of the rendering (see there).
\<close>

type_synonym coord = rat

type_synonym tag_dict = "string \<rightharpoonup> string"

record member =
  ref :: int
  role :: string

record raw_element =
  type_el :: string
  id_el :: int
  tags :: "tag_dict option"
  lat :: "coord option"
  lon :: "coord option"
  members :: "member list option"

record osm_data =
  elements :: "raw_element list"

datatype error = KeyError string | ValueError string

section \<open>The graph library\<close>

text \<open>
  The graph is an undirected \<open>networkx.Graph\<close>. The library keeps two dictionaries in
  insertion order with the same keys, one from a vertex to its attribute dictionary and
  one from a vertex to its neighbours; they are merged here into one insertion-ordered
  association list from a vertex to its attributes and its neighbour list. The only
  attribute keys the program writes are \<open>pos\<close>, \<open>name\<close> and \<open>colour\<close>; an absent key
  is \<open>None\<close>. Edge attribute dictionaries are always empty and are left out.
\<close>

record node_attrs =
  pos :: "(coord \<times> coord) option"
  name :: "string option"
  colour :: "string option"

record vertex =
  attrs :: node_attrs
  nbrs :: "int list"

type_synonym graph = "(int \<times> vertex) list"

definition no_attrs :: node_attrs where
  "no_attrs = \<lparr>pos = None, name = None, colour = None\<rparr>"

text \<open>\<open>d.update(attr)\<close> on an attribute dictionary: the keys given overwrite, the others stay.\<close>

definition attr_update :: "node_attrs \<Rightarrow> node_attrs \<Rightarrow> node_attrs" where
  "attr_update d attr =
     \<lparr>pos = (case pos attr of Some p \<Rightarrow> Some p | None \<Rightarrow> pos d),
      name = (case name attr of Some s \<Rightarrow> Some s | None \<Rightarrow> name d),
      colour = (case colour attr of Some c \<Rightarrow> Some c | None \<Rightarrow> colour d)\<rparr>"

text \<open>\<open>nx.Graph()\<close>.\<close>

definition Graph :: graph where
  "Graph = []"

text \<open>
  \<open>G.add_node(n, **attr)\<close>: a new vertex gets a fresh attribute dictionary updated with
  \<open>attr\<close> and no neighbour; an existing one keeps its place and its neighbours and has its
  attribute dictionary updated.
\<close>

definition add_node :: "graph \<Rightarrow> int \<Rightarrow> node_attrs \<Rightarrow> graph" where
  "add_node G n attr =
     (case map_of G n of
        None \<Rightarrow> AList.update n \<lparr>attrs = attr_update no_attrs attr, nbrs = []\<rparr> G
      | Some vx \<Rightarrow> AList.update n (vx\<lparr>attrs := attr_update (attrs vx) attr\<rparr>) G)"

text \<open>Assignment \<open>d[v] = {}\<close> in a neighbour dictionary: a new key goes to the end.\<close>

definition nbr_set :: "int \<Rightarrow> int list \<Rightarrow> int list" where
  "nbr_set v ns = (if v \<in> set ns then ns else ns @ [v])"

definition ensure_node :: "graph \<Rightarrow> int \<Rightarrow> graph" where
  "ensure_node G u =
     (case map_of G u of
        None \<Rightarrow> AList.update u \<lparr>attrs = no_attrs, nbrs = []\<rparr> G
      | Some vx \<Rightarrow> G)"

text \<open>
  \<open>G.add_edge(u, v)\<close>: an endpoint that is not a vertex yet is created with an empty
  attribute dictionary, then each endpoint is entered among the other's neighbours.
\<close>

definition add_edge :: "graph \<Rightarrow> int \<Rightarrow> int \<Rightarrow> graph" where
  "add_edge G u v =
     (let G1 = ensure_node G u;
          G2 = ensure_node G1 v;
          G3 = AList.map_entry u (\<lambda>vx. vx\<lparr>nbrs := nbr_set v (nbrs vx)\<rparr>) G2
      in AList.map_entry v (\<lambda>vx. vx\<lparr>nbrs := nbr_set u (nbrs vx)\<rparr>) G3)"

text \<open>
  \<open>G.edges()\<close>: the vertices in insertion order, each with its neighbours in insertion
  order; a pair is reported unless the neighbour was already visited as a vertex.
\<close>

fun edges_iter :: "int list \<Rightarrow> graph \<Rightarrow> (int \<times> int) list" where
  "edges_iter seen [] = []"
| "edges_iter seen ((n, vx) # rest) =
     [(n, nbr). nbr \<leftarrow> nbrs vx, nbr \<notin> set seen] @ edges_iter (seen @ [n]) rest"

definition edges :: "graph \<Rightarrow> (int \<times> int) list" where
  "edges G = edges_iter [] G"

text \<open>\<open>nx.get_node_attributes(G, key)\<close>: the vertices that carry the key, in insertion order.\<close>

definition get_node_attributes :: "graph \<Rightarrow> (node_attrs \<Rightarrow> 'a option) \<Rightarrow> (int \<times> 'a) list" where
  "get_node_attributes G key =
     concat (map (\<lambda>(n, vx). case key (attrs vx) of Some x \<Rightarrow> [(n, x)] | None \<Rightarrow> []) G)"

text \<open>\<open>G.nodes[n].get(key)\<close>, with \<open>None\<close> also when \<open>n\<close> is not a vertex.\<close>

definition node_attr :: "graph \<Rightarrow> (node_attrs \<Rightarrow> 'a option) \<Rightarrow> int \<Rightarrow> 'a option" where
  "node_attr G key n = (case map_of G n of None \<Rightarrow> None | Some vx \<Rightarrow> key (attrs vx))"

text \<open>The vertex set and the undirected edge set of a graph.\<close>

definition vertices :: "graph \<Rightarrow> int set" where
  "vertices G = fst ` set G"

definition edge_set :: "graph \<Rightarrow> int set set" where
  "edge_set G = (\<lambda>(u, v). {u, v}) ` set (edges G)"

section \<open>Strings\<close>

text \<open>\<open>str(n)\<close> for an integer: decimal digits, with a minus sign for a negative one.\<close>

definition digit_char :: "nat \<Rightarrow> char" where
  "digit_char d = char_of (48 + d)"

fun str_nat :: "nat \<Rightarrow> string" where
  "str_nat n = (if n < 10 then [digit_char n] else str_nat (n div 10) @ [digit_char (n mod 10)])"

declare str_nat.simps [simp del]

definition str :: "int \<Rightarrow> string" where
  "str i = (if i < 0 then CHR ''-'' # str_nat (nat (- i)) else str_nat (nat i))"

text \<open>\<open>sub in s\<close> for strings: \<open>sub\<close> occurs in \<open>s\<close> as a contiguous block.\<close>

fun str_contains :: "string \<Rightarrow> string \<Rightarrow> bool" where
  "str_contains sub [] = (sub = [])"
| "str_contains sub (c # cs) = (prefix sub (c # cs) \<or> str_contains sub cs)"

section \<open>Data processing\<close>

definition has_route_tag :: "raw_element \<Rightarrow> bool" where
  "has_route_tag element =
     (case tags element of None \<Rightarrow> False | Some t \<Rightarrow> t ''route'' \<noteq> None)"

definition extract_route_elements :: "osm_data \<Rightarrow> raw_element list" where
  "extract_route_elements osm_data =
     [element. element \<leftarrow> elements osm_data, has_route_tag element]"

text \<open>The dictionary comprehension stores the elements one after the other.\<close>

definition extract_node_elements :: "osm_data \<Rightarrow> (int \<rightharpoonup> raw_element)" where
  "extract_node_elements osm_data =
     foldl (\<lambda>d element. if type_el element = ''node'' then d(id_el element \<mapsto> element) else d)
       Map.empty (elements osm_data)"

definition stop_nodes :: "raw_element \<Rightarrow> error + member list" where
  "stop_nodes route =
     (case members route of
        None \<Rightarrow> Inl (KeyError ''members'')
      | Some ms \<Rightarrow> Inr [m. m \<leftarrow> ms, str_contains ''stop'' (role m)])"

text \<open>The first inner loop: one vertex for each stop member whose ref is in the node mapping.\<close>

fun add_stop_vertices ::
  "graph \<Rightarrow> raw_element \<Rightarrow> (int \<rightharpoonup> raw_element) \<Rightarrow> member list \<Rightarrow> error + graph" where
  "add_stop_vertices G route node_elements [] = Inr G"
| "add_stop_vertices G route node_elements (node # rest) =
     (case node_elements (ref node) of
        None \<Rightarrow> add_stop_vertices G route node_elements rest
      | Some node_data \<Rightarrow>
          (case tags node_data of
             None \<Rightarrow> Inl (KeyError ''tags'')
           | Some nt \<Rightarrow>
               (case tags route of
                  None \<Rightarrow> Inl (KeyError ''tags'')
                | Some rt \<Rightarrow>
                    (case lon node_data of
                       None \<Rightarrow> Inl (KeyError ''lon'')
                     | Some lo \<Rightarrow>
                         (case lat node_data of
                            None \<Rightarrow> Inl (KeyError ''lat'')
                          | Some la \<Rightarrow>
                              add_stop_vertices
                                (add_node G (ref node)
                                   \<lparr>pos = Some (lo, la),
                                    name = Some (case nt ''name'' of Some s \<Rightarrow> s | None \<Rightarrow> str (ref node)),
                                    colour = Some (case rt ''colour'' of Some c \<Rightarrow> c | None \<Rightarrow> ''#808080'')\<rparr>)
                                route node_elements rest)))))"

text \<open>
  The second inner loop, \<open>for i in range(len(stop_nodes) - 1)\<close>: the range is empty when
  there is no stop member, as the truncated subtraction on \<open>nat\<close> has it.
\<close>

definition add_stop_edges :: "graph \<Rightarrow> member list \<Rightarrow> graph" where
  "add_stop_edges G sn =
     foldl (\<lambda>G i. add_edge G (ref (sn ! i)) (ref (sn ! (i + 1)))) G [0 ..< length sn - 1]"

fun route_loop :: "graph \<Rightarrow> raw_element list \<Rightarrow> (int \<rightharpoonup> raw_element) \<Rightarrow> error + graph" where
  "route_loop G [] node_elements = Inr G"
| "route_loop G (route # rest) node_elements =
     (case stop_nodes route of
        Inl e \<Rightarrow> Inl e
      | Inr sn \<Rightarrow>
          (case add_stop_vertices G route node_elements sn of
             Inl e \<Rightarrow> Inl e
           | Inr G1 \<Rightarrow> route_loop (add_stop_edges G1 sn) rest node_elements))"

definition create_route_graph :: "raw_element list \<Rightarrow> (int \<rightharpoonup> raw_element) \<Rightarrow> error + graph" where
  "create_route_graph route_elements node_elements = route_loop Graph route_elements node_elements"

section \<open>Map rendering\<close>

text \<open>
  The map of the rendering library is kept as the values handed to it: the centre
  \<open>[lat, lon]\<close>, the zoom level, and the children in the order they were added, a circle
  marker (location \<open>[lat, lon]\<close>, radius, colour, fill, fill colour, tooltip) or a line
  (its locations, colour, weight).
\<close>

datatype child =
  is_CircleMarker: CircleMarker "coord \<times> coord" nat string bool string string
| is_PolyLine: PolyLine "(coord \<times> coord) list" string nat

record folium_map =
  location :: "coord \<times> coord"
  zoom_start :: int
  children :: "child list"

text \<open>
  The centre of the map is computed with the built-in \<open>sum\<close> and the division \<open>/\<close> of
  the language on binary floating-point numbers. Their rounding is not modelled: the
  two operations are parameters of the rendering, \<open>builtin_sum xs\<close> for \<open>sum(xs)\<close> and
  \<open>true_div x n\<close> for \<open>x / n\<close> with \<open>n\<close> the integer \<open>len(xs)\<close>, and nothing is assumed
  about them.
\<close>

record float_arith =
  builtin_sum :: "coord list \<Rightarrow> coord"
  true_div :: "coord \<Rightarrow> int \<Rightarrow> coord"

definition circle_markers ::
  "(int \<times> coord \<times> coord) list \<Rightarrow> (int \<times> string) list \<Rightarrow> (int \<times> string) list \<Rightarrow> child list" where
  "circle_markers positions node_labels node_colors =
     map (\<lambda>(node, p).
            let node_name = (case map_of node_labels node of Some s \<Rightarrow> s | None \<Rightarrow> ''Node '' @ str node);
                color = (case map_of node_colors node of Some c \<Rightarrow> c | None \<Rightarrow> ''blue'')
            in CircleMarker (snd p, fst p) 6 color True color node_name)
       positions"

definition poly_lines :: "(int \<times> int) list \<Rightarrow> (int \<times> coord \<times> coord) list \<Rightarrow> child list" where
  "poly_lines es positions =
     concat (map (\<lambda>(u, v).
                    case map_of positions u of
                      None \<Rightarrow> []
                    | Some pu \<Rightarrow>
                        (case map_of positions v of
                           None \<Rightarrow> []
                         | Some pv \<Rightarrow> [PolyLine [(snd pu, fst pu), (snd pv, fst pv)] ''blue'' 2]))
            es)"

definition create_folium_map :: "float_arith \<Rightarrow> graph \<Rightarrow> int \<Rightarrow> error + folium_map" where
  "create_folium_map arith G zoom =
     (let positions = get_node_attributes G pos;
          node_labels = get_node_attributes G name;
          node_colors = get_node_attributes G colour
      in if positions = []
         then Inl (ValueError ''Graph nodes must contain a 'pos' attribute with (longitude, latitude).'')
         else
           (let latitudes = map (\<lambda>(n, p). snd p) positions;
                longitudes = map (\<lambda>(n, p). fst p) positions;
                center_lat = true_div arith (builtin_sum arith latitudes) (int (length latitudes));
                center_lon = true_div arith (builtin_sum arith longitudes) (int (length longitudes))
            in Inr \<lparr>location = (center_lat, center_lon),
                    zoom_start = zoom,
                    children = circle_markers positions node_labels node_colors
                               @ poly_lines (edges G) positions\<rparr>))"

section \<open>Notions used in the statements\<close>

text \<open>
  The neighbours of a vertex as a set, the invariant of the graphs the library builds
  (distinct vertices, symmetric adjacency), and the unordered pairs \<open>{u, v}\<close> with \<open>v\<close> a
  neighbour of \<open>u\<close>.
\<close>

definition nbrs_of :: "graph \<Rightarrow> int \<Rightarrow> int set" where
  "nbrs_of G u = (case map_of G u of None \<Rightarrow> {} | Some vx \<Rightarrow> set (nbrs vx))"

definition wf_graph :: "graph \<Rightarrow> bool" where
  "wf_graph G \<longleftrightarrow> distinct (map fst G) \<and> (\<forall>u v. v \<in> nbrs_of G u \<longrightarrow> u \<in> nbrs_of G v)"

definition adj_set :: "graph \<Rightarrow> int set set" where
  "adj_set G = {{u, v} | u v. v \<in> nbrs_of G u}"

text \<open>
  The unordered pairs of neighbouring positions \<open>i\<close>, \<open>i + 1\<close> of a list; the refs of the
  stop-role members of a route, in their order (empty when the route has no \<open>members\<close>);
  and the colour a route gives to its vertices: its \<open>colour\<close> tag, else the default gray.
\<close>

definition adjacent_pairs :: "int list \<Rightarrow> int set set" where
  "adjacent_pairs xs = {{xs ! i, xs ! (i + 1)} | i. i + 1 < length xs}"

definition stop_refs :: "raw_element \<Rightarrow> int list" where
  "stop_refs route =
     (case members route of
        None \<Rightarrow> []
      | Some ms \<Rightarrow> map ref [m. m \<leftarrow> ms, str_contains ''stop'' (role m)])"

definition route_colour :: "raw_element \<Rightarrow> string" where
  "route_colour route =
     (case tags route of
        None \<Rightarrow> ''#808080''
      | Some rt \<Rightarrow> (case rt ''colour'' of Some c \<Rightarrow> c | None \<Rightarrow> ''#808080''))"

section \<open>Properties of the element classifier\<close>

lemma comprehension_filter: "concat (map (\<lambda>x. if P x then [x] else []) xs) = filter P xs"
  by (induction xs) auto

lemma extract_route_elements_filter:
  "extract_route_elements d = filter has_route_tag (elements d)"
  unfolding extract_route_elements_def by (simp add: comprehension_filter)

text \<open>
  C6. \<open>extract_route_elements\<close> returns exactly the elements whose \<open>tags\<close> field is present
  and contains the key \<open>route\<close>, in the order of the input: the result is that filter of
  the input, hence a subsequence of it; no element of the result lacks \<open>tags\<close>; and an
  empty input gives an empty result.
\<close>

theorem extract_route_elements_subsequence:
  "extract_route_elements d = filter (\<lambda>e. \<exists>t. tags e = Some t \<and> ''route'' \<in> dom t) (elements d)
   \<and> subseq (extract_route_elements d) (elements d)
   \<and> (\<forall>e \<in> set (extract_route_elements d). tags e \<noteq> None)
   \<and> (elements d = [] \<longrightarrow> extract_route_elements d = [])"
proof -
  have P: "has_route_tag = (\<lambda>e. \<exists>t. tags e = Some t \<and> ''route'' \<in> dom t)"
    by (auto simp: has_route_tag_def fun_eq_iff split: option.splits)
  have 1: "extract_route_elements d = filter (\<lambda>e. \<exists>t. tags e = Some t \<and> ''route'' \<in> dom t) (elements d)"
    using extract_route_elements_filter P by simp
  show ?thesis
    unfolding 1 by auto
qed

theorem extract_route_elements_subsequence_witness:
  "extract_route_elements
     \<lparr>elements =
        [\<lparr>type_el = ''relation'', id_el = 10, tags = Some [''route'' \<mapsto> ''subway''],
          lat = None, lon = None, members = Some []\<rparr>,
         \<lparr>type_el = ''node'', id_el = 1, tags = Some [''name'' \<mapsto> ''Alexanderplatz''],
          lat = Some 52, lon = Some 13, members = None\<rparr>,
         \<lparr>type_el = ''node'', id_el = 2, tags = None,
          lat = Some 53, lon = Some 14, members = None\<rparr>]\<rparr>
   = [\<lparr>type_el = ''relation'', id_el = 10, tags = Some [''route'' \<mapsto> ''subway''],
          lat = None, lon = None, members = Some []\<rparr>]
   \<and> elements \<lparr>elements = []\<rparr> = []
   \<and> extract_route_elements \<lparr>elements = []\<rparr> = []"
  using extract_route_elements_subsequence
          [of "\<lparr>elements =
        [\<lparr>type_el = ''relation'', id_el = 10, tags = Some [''route'' \<mapsto> ''subway''],
          lat = None, lon = None, members = Some []\<rparr>,
         \<lparr>type_el = ''node'', id_el = 1, tags = Some [''name'' \<mapsto> ''Alexanderplatz''],
          lat = Some 52, lon = Some 13, members = None\<rparr>,
         \<lparr>type_el = ''node'', id_el = 2, tags = None,
          lat = Some 53, lon = Some 14, members = None\<rparr>]\<rparr>"]
        extract_route_elements_subsequence [of "\<lparr>elements = []\<rparr>"]
  by simp

lemma foldl_node_elements:
  "foldl (\<lambda>d e. if type_el e = ''node'' then d(id_el e \<mapsto> e) else d) m xs k =
     (case filter (\<lambda>e. type_el e = ''node'' \<and> id_el e = k) xs of
        [] \<Rightarrow> m k
      | y # ys \<Rightarrow> Some (last (y # ys)))"
proof (induction xs rule: rev_induct)
  case Nil
  then show ?case by simp
next
  case (snoc x xs)
  then show ?case by (auto split: list.splits)
qed

text \<open>
  C7. The keys of the mapping returned by \<open>extract_node_elements\<close> are exactly the ids of
  the elements whose type is \<open>node\<close>, and the value stored under an id is the last such
  element with that id in the order of the input.
\<close>

theorem extract_node_elements_last_wins:
  "dom (extract_node_elements d) = id_el ` {e \<in> set (elements d). type_el e = ''node''}
   \<and> extract_node_elements d k =
       (case filter (\<lambda>e. type_el e = ''node'' \<and> id_el e = k) (elements d) of
          [] \<Rightarrow> None
        | e # es \<Rightarrow> Some (last (e # es)))"
proof -
  have v: "extract_node_elements d k =
       (case filter (\<lambda>e. type_el e = ''node'' \<and> id_el e = k) (elements d) of
          [] \<Rightarrow> None
        | e # es \<Rightarrow> Some (last (e # es)))" for k
    unfolding extract_node_elements_def by (simp add: foldl_node_elements)
  have "k \<in> dom (extract_node_elements d)
          \<longleftrightarrow> k \<in> id_el ` {e \<in> set (elements d). type_el e = ''node''}" for k
  proof -
    have "k \<in> dom (extract_node_elements d)
            \<longleftrightarrow> filter (\<lambda>e. type_el e = ''node'' \<and> id_el e = k) (elements d) \<noteq> []"
      by (auto simp: v dom_def split: list.splits)
    also have "\<dots> \<longleftrightarrow> k \<in> id_el ` {e \<in> set (elements d). type_el e = ''node''}"
      by (auto simp: filter_empty_conv)
    finally show ?thesis .
  qed
  then have "dom (extract_node_elements d) = id_el ` {e \<in> set (elements d). type_el e = ''node''}"
    by blast
  with v show ?thesis by simp
qed

theorem extract_node_elements_last_wins_witness:
  "extract_node_elements
     \<lparr>elements =
        [\<lparr>type_el = ''node'', id_el = 1, tags = None, lat = Some 52, lon = Some 13, members = None\<rparr>,
         \<lparr>type_el = ''relation'', id_el = 7, tags = None, lat = None, lon = None, members = Some []\<rparr>,
         \<lparr>type_el = ''node'', id_el = 1, tags = None, lat = Some 53, lon = Some 14, members = None\<rparr>]\<rparr> 1
   = Some \<lparr>type_el = ''node'', id_el = 1, tags = None, lat = Some 53, lon = Some 14, members = None\<rparr>
   \<and> extract_node_elements
     \<lparr>elements =
        [\<lparr>type_el = ''node'', id_el = 1, tags = None, lat = Some 52, lon = Some 13, members = None\<rparr>,
         \<lparr>type_el = ''relation'', id_el = 7, tags = None, lat = None, lon = None, members = Some []\<rparr>,
         \<lparr>type_el = ''node'', id_el = 1, tags = None, lat = Some 53, lon = Some 14, members = None\<rparr>]\<rparr> 7
   = None"
  using extract_node_elements_last_wins
          [of "\<lparr>elements =
        [\<lparr>type_el = ''node'', id_el = 1, tags = None, lat = Some 52, lon = Some 13, members = None\<rparr>,
         \<lparr>type_el = ''relation'', id_el = 7, tags = None, lat = None, lon = None, members = Some []\<rparr>,
         \<lparr>type_el = ''node'', id_el = 1, tags = None, lat = Some 53, lon = Some 14, members = None\<rparr>]\<rparr>" 1]
        extract_node_elements_last_wins
          [of "\<lparr>elements =
        [\<lparr>type_el = ''node'', id_el = 1, tags = None, lat = Some 52, lon = Some 13, members = None\<rparr>,
         \<lparr>type_el = ''relation'', id_el = 7, tags = None, lat = None, lon = None, members = Some []\<rparr>,
         \<lparr>type_el = ''node'', id_el = 1, tags = None, lat = Some 53, lon = Some 14, members = None\<rparr>]\<rparr>" 7]
  by simp

section \<open>Properties of the graph library\<close>

lemma set_nbr_set [simp]: "set (nbr_set v ns) = insert v (set ns)"
  by (auto simp: nbr_set_def)

lemma distinct_add_node: "distinct (map fst G) \<Longrightarrow> distinct (map fst (add_node G n a))"
  by (simp add: add_node_def distinct_update split: option.splits)

lemma vertices_add_node: "vertices (add_node G n a) = insert n (vertices G)"
  by (simp add: add_node_def vertices_def dom_update split: option.splits)

lemma nbrs_of_add_node: "nbrs_of (add_node G n a) u = nbrs_of G u"
  by (simp add: add_node_def nbrs_of_def update_conv' split: option.splits)

lemma node_attr_add_node:
  "node_attr (add_node G n a) key m =
     (if m = n then key (attr_update (case map_of G n of None \<Rightarrow> no_attrs | Some vx \<Rightarrow> attrs vx) a)
      else node_attr G key m)"
  by (simp add: add_node_def node_attr_def update_conv' split: option.splits)

lemma distinct_ensure_node: "distinct (map fst G) \<Longrightarrow> distinct (map fst (ensure_node G n))"
  by (simp add: ensure_node_def distinct_update split: option.splits)

lemma vertices_ensure_node: "vertices (ensure_node G n) = insert n (vertices G)"
  by (auto simp: ensure_node_def vertices_def dom_update  split: option.splits dest: map_of_SomeD
      intro: rev_image_eqI)

lemma map_of_ensure_node:
  "map_of (ensure_node G n) m =
     (if m = n \<and> map_of G n = None then Some \<lparr>attrs = no_attrs, nbrs = []\<rparr> else map_of G m)"
  by (simp add: ensure_node_def update_conv' split: option.splits)

lemma distinct_add_edge: "distinct (map fst G) \<Longrightarrow> distinct (map fst (add_edge G u v))"
  by (simp add: add_edge_def Let_def distinct_ensure_node distinct_map_entry)

lemma vertices_add_edge: "vertices (add_edge G u v) = insert u (insert v (vertices G))"
proof -
  have "vertices (AList.map_entry k f H) = vertices H" for k f and H :: graph
    by (simp add: vertices_def dom_map_entry)
  then show ?thesis
    by (auto simp: add_edge_def Let_def vertices_ensure_node)
qed

lemma nbrs_of_ensure_node: "nbrs_of (ensure_node G n) m = nbrs_of G m"
  by (simp add: nbrs_of_def map_of_ensure_node)

lemma nbrs_of_add_edge:
  "nbrs_of (add_edge G u v) w =
     nbrs_of G w \<union> (if w = u then {v} else {}) \<union> (if w = v then {u} else {})"
  by (auto simp: add_edge_def Let_def nbrs_of_def map_of_map_entry map_of_ensure_node
           split: option.splits if_splits)

lemma node_attr_ensure_node:
  "key no_attrs = None \<Longrightarrow> node_attr (ensure_node G n) key m = node_attr G key m"
  by (simp add: node_attr_def map_of_ensure_node)

lemma node_attr_add_edge:
  "key no_attrs = None \<Longrightarrow> node_attr (add_edge G u v) key m = node_attr G key m"
  by (auto simp: add_edge_def Let_def node_attr_def map_of_map_entry map_of_ensure_node
           split: option.splits if_splits)

lemma wf_graph_Graph: "wf_graph Graph"
  by (simp add: wf_graph_def Graph_def nbrs_of_def)

lemma wf_graph_add_node: "wf_graph G \<Longrightarrow> wf_graph (add_node G n a)"
  by (simp add: wf_graph_def distinct_add_node nbrs_of_add_node)

lemma wf_graph_add_edge: "wf_graph G \<Longrightarrow> wf_graph (add_edge G u v)"
  by (auto simp: wf_graph_def distinct_add_edge nbrs_of_add_edge split: if_splits)

lemma set_edges_iter_Cons:
  "set (edges_iter seen ((n, vx) # rest)) =
     {(n, nbr) | nbr. nbr \<in> set (nbrs vx) \<and> nbr \<notin> set seen} \<union> set (edges_iter (seen @ [n]) rest)"
  by auto

lemma edges_iter_pairs:
  assumes "distinct (map fst G)"
    and "set seen \<inter> fst ` set G = {}"
    and "\<forall>(u, vx) \<in> set G. \<forall>v \<in> set (nbrs vx).
           v \<in> set seen \<or> (\<exists>vy. (v, vy) \<in> set G \<and> u \<in> set (nbrs vy))"
  shows "(\<lambda>(u, v). {u, v}) ` set (edges_iter seen G) =
           {{u, v} | u v vx. (u, vx) \<in> set G \<and> v \<in> set (nbrs vx) \<and> v \<notin> set seen}"
  using assms
proof (induction G arbitrary: seen)
  case Nil
  then show ?case by simp
next
  case (Cons a G)
  obtain n vx0 where a: "a = (n, vx0)" by (cases a)
  have d: "distinct (map fst G)" and n_notin: "n \<notin> fst ` set G"
    using Cons.prems(1) a by auto
  have disj: "set (seen @ [n]) \<inter> fst ` set G = {}"
    using Cons.prems(2) n_notin a by auto
  have sym: "\<forall>(u, vx) \<in> set G. \<forall>v \<in> set (nbrs vx).
           v \<in> set (seen @ [n]) \<or> (\<exists>vy. (v, vy) \<in> set G \<and> u \<in> set (nbrs vy))"
  proof (clarify)
    fix u vx v
    assume uv: "(u, vx) \<in> set G" "v \<in> set (nbrs vx)" "\<not> (\<exists>vy. (v, vy) \<in> set G \<and> u \<in> set (nbrs vy))"
    from Cons.prems(3) uv(1,2) a
    have "v \<in> set seen \<or> (\<exists>vy. (v, vy) \<in> set ((n, vx0) # G) \<and> u \<in> set (nbrs vy))"
      by fastforce
    with uv(3) show "v \<in> set (seen @ [n])" by auto
  qed
  have IH: "(\<lambda>(u, v). {u, v}) ` set (edges_iter (seen @ [n]) G) =
           {{u, v} | u v vx. (u, vx) \<in> set G \<and> v \<in> set (nbrs vx) \<and> v \<notin> set (seen @ [n])}"
    by (rule Cons.IH [OF d disj sym])
  have bk: "{u, n} \<in> {{n, nbr} | nbr. nbr \<in> set (nbrs vx0) \<and> nbr \<notin> set seen}"
    if "(u, vx) \<in> set G" "n \<in> set (nbrs vx)" "n \<notin> set seen" for u vx
  proof -
    from Cons.prems(3) that a
    obtain vy where vy: "(n, vy) \<in> set ((n, vx0) # G)" "u \<in> set (nbrs vy)"
      by fastforce
    from vy(1) n_notin have "vy = vx0" by (auto simp: image_iff)
    moreover have "u \<in> fst ` set G"
      using that(1) by (rule rev_image_eqI) simp
    then have "u \<notin> set seen"
      using Cons.prems(2) by auto
    ultimately show ?thesis using vy(2) by (auto simp: insert_commute)
  qed
  have "(\<lambda>(u, v). {u, v}) ` set (edges_iter seen (a # G)) =
          {{n, nbr} | nbr. nbr \<in> set (nbrs vx0) \<and> nbr \<notin> set seen}
          \<union> {{u, v} | u v vx. (u, vx) \<in> set G \<and> v \<in> set (nbrs vx) \<and> v \<notin> set (seen @ [n])}"
    unfolding a set_edges_iter_Cons image_Un IH by auto
  also have "\<dots> = {{u, v} | u v vx. (u, vx) \<in> set (a # G) \<and> v \<in> set (nbrs vx) \<and> v \<notin> set seen}"
    (is "?L = ?R")
  proof
    show "?L \<subseteq> ?R" unfolding a by auto
    show "?R \<subseteq> ?L"
    proof
      fix e assume "e \<in> ?R"
      then obtain u v vx where e: "e = {u, v}" "(u, vx) \<in> set (a # G)" "v \<in> set (nbrs vx)" "v \<notin> set seen"
        by blast
      show "e \<in> ?L"
      proof (cases "(u, vx) = a")
        case True
        then show ?thesis using e a by auto
      next
        case False
        then have in_G: "(u, vx) \<in> set G" using e(2) by simp
        show ?thesis
        proof (cases "v = n")
          case True
          then show ?thesis using bk [OF in_G] e by auto
        next
          case False
          then show ?thesis using in_G e by auto
        qed
      qed
    qed
  qed
  finally show ?case .
qed

lemma edge_set_adj_set:
  assumes "wf_graph G"
  shows "edge_set G = adj_set G"
proof -
  have d: "distinct (map fst G)" using assms by (simp add: wf_graph_def)
  have mem: "(u, vx) \<in> set G \<longleftrightarrow> map_of G u = Some vx" for u vx
    using d by simp
  have ex: "\<exists>vy. (v, vy) \<in> set G \<and> u \<in> set (nbrs vy)"
    if "(u, vx) \<in> set G" "v \<in> set (nbrs vx)" for u vx v
  proof -
    from that have "v \<in> nbrs_of G u" by (simp add: nbrs_of_def mem)
    then have "u \<in> nbrs_of G v" using assms by (simp add: wf_graph_def)
    then show ?thesis
      by (auto simp: nbrs_of_def mem split: option.splits)
  qed
  have sym: "\<forall>(u, vx) \<in> set G. \<forall>v \<in> set (nbrs vx).
           v \<in> set [] \<or> (\<exists>vy. (v, vy) \<in> set G \<and> u \<in> set (nbrs vy))"
    using ex by blast
  have "edge_set G = {{u, v} | u v vx. (u, vx) \<in> set G \<and> v \<in> set (nbrs vx) \<and> v \<notin> set []}"
    unfolding edge_set_def edges_def
    by (rule edges_iter_pairs [OF d _ sym]) simp
  also have "\<dots> = adj_set G"
  proof -
    have "(\<exists>vx. (u, vx) \<in> set G \<and> v \<in> set (nbrs vx)) \<longleftrightarrow> v \<in> nbrs_of G u" for u v
      by (auto simp: nbrs_of_def mem split: option.splits)
    then have "v \<in> nbrs_of G u \<longleftrightarrow> (\<exists>vx. (u, vx) \<in> set G \<and> v \<in> set (nbrs vx))" for u v
      by simp
    then show ?thesis
      unfolding adj_set_def by auto
  qed
  finally show ?thesis .
qed

lemma adj_set_add_node: "adj_set (add_node G n a) = adj_set G"
  by (simp add: adj_set_def nbrs_of_add_node)

lemma adj_set_add_edge: "adj_set (add_edge G u v) = insert {u, v} (adj_set G)"
  by (auto simp: adj_set_def nbrs_of_add_edge insert_commute split: if_splits)

section \<open>Properties of the graph builder\<close>

lemma adjacent_pairs_simps [simp]:
  "adjacent_pairs [] = {}"
  "adjacent_pairs [x] = {}"
  "adjacent_pairs (x # y # xs) = insert {x, y} (adjacent_pairs (y # xs))"
proof -
  show "adjacent_pairs [] = {}" "adjacent_pairs [x] = {}"
    by (simp_all add: adjacent_pairs_def)
  show "adjacent_pairs (x # y # xs) = insert {x, y} (adjacent_pairs (y # xs))"
  proof
    show "adjacent_pairs (x # y # xs) \<subseteq> insert {x, y} (adjacent_pairs (y # xs))"
    proof
      fix e assume "e \<in> adjacent_pairs (x # y # xs)"
      then obtain i where i: "e = {(x # y # xs) ! i, (x # y # xs) ! (i + 1)}" "i + 1 < length (x # y # xs)"
        by (auto simp: adjacent_pairs_def)
      show "e \<in> insert {x, y} (adjacent_pairs (y # xs))"
      proof (cases i)
        case 0
        then show ?thesis using i by simp
      next
        case (Suc j)
        then have "e = {(y # xs) ! j, (y # xs) ! (j + 1)}" "j + 1 < length (y # xs)"
          using i by simp_all
        then show ?thesis unfolding adjacent_pairs_def by blast
      qed
    qed
    show "insert {x, y} (adjacent_pairs (y # xs)) \<subseteq> adjacent_pairs (x # y # xs)"
    proof
      fix e assume "e \<in> insert {x, y} (adjacent_pairs (y # xs))"
      then consider "e = {x, y}" | j where "e = {(y # xs) ! j, (y # xs) ! (j + 1)}" "j + 1 < length (y # xs)"
        by (auto simp: adjacent_pairs_def)
      then show "e \<in> adjacent_pairs (x # y # xs)"
      proof cases
        case 1
        then have "e = {(x # y # xs) ! 0, (x # y # xs) ! (0 + 1)}" "0 + 1 < length (x # y # xs)"
          by simp_all
        then show ?thesis unfolding adjacent_pairs_def by blast
      next
        case 2
        then have "e = {(x # y # xs) ! Suc j, (x # y # xs) ! (Suc j + 1)}" "Suc j + 1 < length (x # y # xs)"
          by simp_all
        then show ?thesis unfolding adjacent_pairs_def by blast
      qed
    qed
  qed
qed

lemma card_adjacent_pairs: "card (adjacent_pairs xs) \<le> length xs - 1"
proof -
  have "adjacent_pairs xs = (\<lambda>i. {xs ! i, xs ! (i + 1)}) ` {..<length xs - 1}"
    by (auto simp: adjacent_pairs_def image_iff less_diff_conv)
  moreover have "card ((\<lambda>i. {xs ! i, xs ! (i + 1)}) ` {..<length xs - 1}) \<le> card {..<length xs - 1}"
    by (rule card_image_le) simp
  ultimately show ?thesis by simp
qed

lemma add_stop_edges_simps [simp]:
  "add_stop_edges G [] = G"
  "add_stop_edges G [a] = G"
  "add_stop_edges G (a # b # rest) = add_stop_edges (add_edge G (ref a) (ref b)) (b # rest)"
proof -
  show "add_stop_edges G [] = G" "add_stop_edges G [a] = G"
    by (simp_all add: add_stop_edges_def)
  have "[0..<Suc (length rest)] = 0 # map Suc [0..<length rest]"
    by (simp add: upt_conv_Cons map_Suc_upt del: upt_Suc)
  then show "add_stop_edges G (a # b # rest) = add_stop_edges (add_edge G (ref a) (ref b)) (b # rest)"
    by (simp add: add_stop_edges_def foldl_map del: upt_Suc)
qed

lemma wf_graph_add_stop_edges: "wf_graph G \<Longrightarrow> wf_graph (add_stop_edges G sn)"
  by (induction sn arbitrary: G rule: induct_list012) (simp_all add: wf_graph_add_edge)

lemma adj_set_add_stop_edges:
  "adj_set (add_stop_edges G sn) = adj_set G \<union> adjacent_pairs (map ref sn)"
  by (induction sn arbitrary: G rule: induct_list012) (simp_all add: adj_set_add_edge)

lemma vertices_add_stop_edges_Cons:
  "vertices (add_stop_edges G (a # b # rest)) = vertices G \<union> ref ` set (a # b # rest)"
proof (induction rest arbitrary: G a b)
  case Nil
  then show ?case by (auto simp: vertices_add_edge)
next
  case (Cons c rest)
  have "vertices (add_stop_edges G (a # b # c # rest)) =
          vertices (add_stop_edges (add_edge G (ref a) (ref b)) (b # c # rest))"
    by simp
  also have "\<dots> = vertices (add_edge G (ref a) (ref b)) \<union> ref ` set (b # c # rest)"
    by (rule Cons.IH)
  finally show ?case by (auto simp: vertices_add_edge)
qed

lemma vertices_add_stop_edges:
  "vertices (add_stop_edges G sn) = vertices G \<union> (if 2 \<le> length sn then ref ` set sn else {})"
proof (cases sn)
  case Nil
  then show ?thesis by simp
next
  case (Cons a sn')
  then show ?thesis
    by (cases sn') (simp_all only: vertices_add_stop_edges_Cons, simp_all)
qed

lemma node_attr_add_stop_edges:
  "key no_attrs = None \<Longrightarrow> node_attr (add_stop_edges G sn) key m = node_attr G key m"
  by (induction sn arbitrary: G rule: induct_list012) (simp_all add: node_attr_add_edge)

lemma wf_graph_add_stop_vertices:
  "add_stop_vertices G r ns sn = Inr G' \<Longrightarrow> wf_graph G \<Longrightarrow> wf_graph G'"
  by (induction sn arbitrary: G) (auto simp: wf_graph_add_node split: option.splits)

lemma adj_set_add_stop_vertices:
  "add_stop_vertices G r ns sn = Inr G' \<Longrightarrow> adj_set G' = adj_set G"
  by (induction sn arbitrary: G) (auto simp: adj_set_add_node split: option.splits)

lemma vertices_add_stop_vertices:
  "add_stop_vertices G r ns sn = Inr G' \<Longrightarrow>
     vertices G' = vertices G \<union> {v \<in> ref ` set sn. ns v \<noteq> None}"
  by (induction sn arbitrary: G) (auto simp: vertices_add_node split: option.splits)

lemma colour_add_stop_vertices:
  "add_stop_vertices G r ns sn = Inr G' \<Longrightarrow>
     node_attr G' colour v =
       (if ns v \<noteq> None \<and> v \<in> ref ` set sn then Some (route_colour r) else node_attr G colour v)"
proof (induction sn arbitrary: G)
  case Nil
  then show ?case by simp
next
  case (Cons m sn)
  show ?case
  proof (cases "ns (ref m)")
    case None
    with Cons show ?thesis by auto
  next
    case (Some d)
    with Cons.prems obtain nt rt lo la where f: "tags d = Some nt" "tags r = Some rt" "lon d = Some lo" "lat d = Some la"
      by (auto split: option.splits)
    let ?G1 = "add_node G (ref m)
                 \<lparr>pos = Some (lo, la),
                  name = Some (case nt ''name'' of Some s \<Rightarrow> s | None \<Rightarrow> str (ref m)),
                  colour = Some (case rt ''colour'' of Some c \<Rightarrow> c | None \<Rightarrow> ''#808080'')\<rparr>"
    from Cons.prems Some f have "add_stop_vertices ?G1 r ns sn = Inr G'" by simp
    from Cons.IH [OF this]
    have "node_attr G' colour v =
       (if ns v \<noteq> None \<and> v \<in> ref ` set sn then Some (route_colour r) else node_attr ?G1 colour v)" .
    moreover have "node_attr ?G1 colour v = (if v = ref m then Some (route_colour r) else node_attr G colour v)"
      by (simp add: node_attr_add_node attr_update_def route_colour_def f)
    ultimately show ?thesis using Some by auto
  qed
qed

lemma add_stop_vertices_total:
  assumes "tags r \<noteq> None"
    and "\<forall>m \<in> set sn. \<forall>d. ns (ref m) = Some d \<longrightarrow> tags d \<noteq> None \<and> lon d \<noteq> None \<and> lat d \<noteq> None"
  shows "\<exists>G'. add_stop_vertices G r ns sn = Inr G'"
  using assms by (induction sn arbitrary: G) (auto split: option.splits)

lemma stop_nodes_stop_refs: "stop_nodes r = Inr sn \<Longrightarrow> stop_refs r = map ref sn"
  by (auto simp: stop_nodes_def stop_refs_def split: option.splits)

lemma route_loop_Cons_Inr:
  assumes "route_loop G0 (r # rs) ns = Inr G"
  obtains sn G1 where "stop_nodes r = Inr sn" "add_stop_vertices G0 r ns sn = Inr G1"
    "route_loop (add_stop_edges G1 sn) rs ns = Inr G"
  using assms by (auto split: sum.splits)

lemma wf_graph_route_loop:
  "route_loop G0 rs ns = Inr G \<Longrightarrow> wf_graph G0 \<Longrightarrow> wf_graph G"
proof (induction rs arbitrary: G0)
  case Nil
  then show ?case by simp
next
  case (Cons r rs)
  from Cons.prems(1) obtain sn G1 where s: "stop_nodes r = Inr sn"
    "add_stop_vertices G0 r ns sn = Inr G1" "route_loop (add_stop_edges G1 sn) rs ns = Inr G"
    by (rule route_loop_Cons_Inr)
  have "wf_graph (add_stop_edges G1 sn)"
    using s(2) Cons.prems(2) by (simp add: wf_graph_add_stop_edges wf_graph_add_stop_vertices)
  with Cons.IH s(3) show ?case by blast
qed

lemma adj_set_route_loop:
  "route_loop G0 rs ns = Inr G \<Longrightarrow>
     adj_set G = adj_set G0 \<union> (\<Union>r \<in> set rs. adjacent_pairs (stop_refs r))"
proof (induction rs arbitrary: G0)
  case Nil
  then show ?case by simp
next
  case (Cons r rs)
  from Cons.prems(1) obtain sn G1 where s: "stop_nodes r = Inr sn"
    "add_stop_vertices G0 r ns sn = Inr G1" "route_loop (add_stop_edges G1 sn) rs ns = Inr G"
    by (rule route_loop_Cons_Inr)
  have "adj_set (add_stop_edges G1 sn) = adj_set G0 \<union> adjacent_pairs (stop_refs r)"
    using s(1,2) by (simp add: adj_set_add_stop_edges adj_set_add_stop_vertices stop_nodes_stop_refs)
  with Cons.IH [OF s(3)] show ?case by auto
qed

lemma colour_route_loop:
  "route_loop G0 rs ns = Inr G \<Longrightarrow>
     node_attr G colour v =
       (if ns v \<noteq> None \<and> (\<exists>r \<in> set rs. v \<in> set (stop_refs r))
        then Some (route_colour (last [r \<leftarrow> rs. v \<in> set (stop_refs r)]))
        else node_attr G0 colour v)"
proof (induction rs arbitrary: G0)
  case Nil
  then show ?case by simp
next
  case (Cons r rs)
  from Cons.prems(1) obtain sn G1 where s: "stop_nodes r = Inr sn"
    "add_stop_vertices G0 r ns sn = Inr G1" "route_loop (add_stop_edges G1 sn) rs ns = Inr G"
    by (rule route_loop_Cons_Inr)
  have refs: "stop_refs r = map ref sn" using s(1) by (rule stop_nodes_stop_refs)
  have 1: "node_attr (add_stop_edges G1 sn) colour v =
       (if ns v \<noteq> None \<and> v \<in> set (stop_refs r) then Some (route_colour r) else node_attr G0 colour v)"
    using colour_add_stop_vertices [OF s(2), of v]
    by (simp add: node_attr_add_stop_edges no_attrs_def refs)
  have 2: "node_attr G colour v =
       (if ns v \<noteq> None \<and> (\<exists>r \<in> set rs. v \<in> set (stop_refs r))
        then Some (route_colour (last [r \<leftarrow> rs. v \<in> set (stop_refs r)]))
        else node_attr (add_stop_edges G1 sn) colour v)"
    by (rule Cons.IH [OF s(3)])
  have 3: "(\<exists>r \<in> set rs. v \<in> set (stop_refs r)) \<longleftrightarrow> [r \<leftarrow> rs. v \<in> set (stop_refs r)] \<noteq> []"
    by (auto simp: filter_empty_conv)
  show ?case
    unfolding 2 1 using 3 by auto
qed

lemma edge_set_route_loop:
  assumes "route_loop Graph rs ns = Inr G"
  shows "edge_set G = (\<Union>r \<in> set rs. adjacent_pairs (stop_refs r))"
proof -
  have "wf_graph G"
    using assms wf_graph_Graph by (rule wf_graph_route_loop)
  then have "edge_set G = adj_set G" by (rule edge_set_adj_set)
  also have "\<dots> = adj_set Graph \<union> (\<Union>r \<in> set rs. adjacent_pairs (stop_refs r))"
    using assms by (rule adj_set_route_loop)
  also have "adj_set Graph = {}"
    by (simp add: adj_set_def nbrs_of_def Graph_def)
  finally show ?thesis by simp
qed

lemma vertices_route_step:
  assumes "stop_nodes r = Inr sn" "add_stop_vertices G0 r ns sn = Inr G1"
  shows "vertices (add_stop_edges G1 sn) =
           vertices G0 \<union> {v \<in> set (stop_refs r). ns v \<noteq> None}
             \<union> (if 2 \<le> length (stop_refs r) then set (stop_refs r) else {})"
  using assms
  by (simp add: vertices_add_stop_edges vertices_add_stop_vertices stop_nodes_stop_refs)

subsection \<open>A vertex for a ref that is not in the node mapping\<close>

text \<open>
  C1. The claim is that every vertex of the returned graph is a key of the node mapping
  whose lookup succeeded. The vertex loop checks \<open>ref in node_elements\<close>, the edge loop
  does not, and \<open>add_edge\<close> creates the endpoints it does not find: for one route with the
  stop members 1 and 2 and a node mapping that holds 1 only, the returned graph has the
  vertex 2, which is not a key of the node mapping and carries no attribute.
\<close>

theorem create_route_graph_dangling_vertex:
  "create_route_graph
     [\<lparr>type_el = ''relation'', id_el = 10, tags = Some [''route'' \<mapsto> ''subway''],
       lat = None, lon = None,
       members = Some [\<lparr>ref = 1, role = ''stop''\<rparr>, \<lparr>ref = 2, role = ''stop''\<rparr>]\<rparr>]
     [1 \<mapsto> \<lparr>type_el = ''node'', id_el = 1, tags = Some [''name'' \<mapsto> ''A''],
             lat = Some 52, lon = Some 13, members = None\<rparr>]
   = Inr [(1, \<lparr>attrs = \<lparr>pos = Some (13, 52), name = Some ''A'', colour = Some ''#808080''\<rparr>, nbrs = [2]\<rparr>),
          (2, \<lparr>attrs = no_attrs, nbrs = [1]\<rparr>)]
   \<and> 2 \<in> vertices
           [(1, \<lparr>attrs = \<lparr>pos = Some (13, 52), name = Some ''A'', colour = Some ''#808080''\<rparr>, nbrs = [2]\<rparr>),
            (2, \<lparr>attrs = no_attrs, nbrs = [1]\<rparr>)]
   \<and> [1 \<mapsto> \<lparr>type_el = ''node'', id_el = 1, tags = Some [''name'' \<mapsto> ''A''],
               lat = Some 52, lon = Some 13, members = None\<rparr>] (2::int) = None"
  by (simp add: create_route_graph_def stop_nodes_def Graph_def add_node_def add_edge_def
        ensure_node_def attr_update_def no_attrs_def nbr_set_def vertices_def)

subsection \<open>A resolved node without tags\<close>

text \<open>
  C2. The claim is that no input makes \<open>create_route_graph\<close> fail, and that a resolved
  node with no tags at all gets the fallback name. The name is read with
  \<open>node_data['tags'].get('name', str(ref))\<close>: the fallback covers a missing \<open>name\<close>, and the
  subscript fails on a node without \<open>tags\<close>. For one route with the stop member 1 and a
  node 1 without \<open>tags\<close> the result is the \<open>KeyError\<close>, not a graph.
\<close>

theorem create_route_graph_untagged_node_fault:
  "create_route_graph
     [\<lparr>type_el = ''relation'', id_el = 10, tags = Some [''route'' \<mapsto> ''subway''],
       lat = None, lon = None,
       members = Some [\<lparr>ref = 1, role = ''stop''\<rparr>]\<rparr>]
     [1 \<mapsto> \<lparr>type_el = ''node'', id_el = 1, tags = None,
             lat = Some 52, lon = Some 13, members = None\<rparr>]
   = Inl (KeyError ''tags'')"
  by (simp add: create_route_graph_def stop_nodes_def Graph_def)

subsection \<open>One route with three stops\<close>

text \<open>
  C3. The claim is that one route whose stop-role members have the refs \<open>[A, B, C]\<close>, all
  present in the node mapping, gives a graph with the vertices \<open>{A, B, C}\<close> and the edges
  \<open>{(A, B), (B, C)}\<close>. For the stop refs \<open>[1, 2, 3]\<close>, all three present in the node
  mapping and the node 2 without \<open>tags\<close>, the result is the \<open>KeyError\<close> of
  \<open>node_data['tags']\<close> and no graph: the same missing guard as for a node without tags in
  general.
\<close>

theorem three_stops_untagged_node_fault:
  "stop_refs
     \<lparr>type_el = ''relation'', id_el = 10, tags = Some [''route'' \<mapsto> ''subway''],
      lat = None, lon = None,
      members = Some [\<lparr>ref = 1, role = ''stop''\<rparr>, \<lparr>ref = 2, role = ''stop''\<rparr>,
                      \<lparr>ref = 3, role = ''stop''\<rparr>]\<rparr> = [1, 2, 3]
   \<and> [1 \<mapsto> \<lparr>type_el = ''node'', id_el = 1, tags = Some [''name'' \<mapsto> ''A''],
               lat = Some 52, lon = Some 13, members = None\<rparr>,
       2 \<mapsto> \<lparr>type_el = ''node'', id_el = 2, tags = None,
               lat = Some 53, lon = Some 14, members = None\<rparr>,
       3 \<mapsto> \<lparr>type_el = ''node'', id_el = 3, tags = Some [''name'' \<mapsto> ''C''],
               lat = Some 54, lon = Some 15, members = None\<rparr>] (1::int) \<noteq> None
   \<and> [1 \<mapsto> \<lparr>type_el = ''node'', id_el = 1, tags = Some [''name'' \<mapsto> ''A''],
               lat = Some 52, lon = Some 13, members = None\<rparr>,
       2 \<mapsto> \<lparr>type_el = ''node'', id_el = 2, tags = None,
               lat = Some 53, lon = Some 14, members = None\<rparr>,
       3 \<mapsto> \<lparr>type_el = ''node'', id_el = 3, tags = Some [''name'' \<mapsto> ''C''],
               lat = Some 54, lon = Some 15, members = None\<rparr>] (2::int) \<noteq> None
   \<and> [1 \<mapsto> \<lparr>type_el = ''node'', id_el = 1, tags = Some [''name'' \<mapsto> ''A''],
               lat = Some 52, lon = Some 13, members = None\<rparr>,
       2 \<mapsto> \<lparr>type_el = ''node'', id_el = 2, tags = None,
               lat = Some 53, lon = Some 14, members = None\<rparr>,
       3 \<mapsto> \<lparr>type_el = ''node'', id_el = 3, tags = Some [''name'' \<mapsto> ''C''],
               lat = Some 54, lon = Some 15, members = None\<rparr>] (3::int) \<noteq> None
   \<and> create_route_graph
       [\<lparr>type_el = ''relation'', id_el = 10, tags = Some [''route'' \<mapsto> ''subway''],
         lat = None, lon = None,
         members = Some [\<lparr>ref = 1, role = ''stop''\<rparr>, \<lparr>ref = 2, role = ''stop''\<rparr>,
                         \<lparr>ref = 3, role = ''stop''\<rparr>]\<rparr>]
       [1 \<mapsto> \<lparr>type_el = ''node'', id_el = 1, tags = Some [''name'' \<mapsto> ''A''],
               lat = Some 52, lon = Some 13, members = None\<rparr>,
        2 \<mapsto> \<lparr>type_el = ''node'', id_el = 2, tags = None,
               lat = Some 53, lon = Some 14, members = None\<rparr>,
        3 \<mapsto> \<lparr>type_el = ''node'', id_el = 3, tags = Some [''name'' \<mapsto> ''C''],
               lat = Some 54, lon = Some 15, members = None\<rparr>]
     = Inl (KeyError ''tags'')"
  by (simp add: create_route_graph_def stop_nodes_def stop_refs_def Graph_def add_node_def)

text \<open>
  Where the three node records do carry \<open>tags\<close>, \<open>lon\<close> and \<open>lat\<close>, the route gives the
  graph with the vertices \<open>{A, B, C}\<close> and the edges \<open>{(A, B), (B, C)}\<close>.
\<close>

lemma three_stops_graph_of_tagged_nodes:
  assumes "has_route_tag route"
    and "stop_refs route = [A, B, C]"
    and "\<forall>v \<in> {A, B, C}. \<exists>d. node_elements v = Some d \<and> tags d \<noteq> None \<and> lon d \<noteq> None \<and> lat d \<noteq> None"
  shows "\<exists>G. create_route_graph [route] node_elements = Inr G
           \<and> vertices G = {A, B, C} \<and> edge_set G = {{A, B}, {B, C}}"
proof -
  obtain ms where ms: "members route = Some ms"
    using assms(2) by (cases "members route") (simp_all add: stop_refs_def)
  then obtain sn where sn: "stop_nodes route = Inr sn"
    by (simp add: stop_nodes_def)
  have refs: "map ref sn = [A, B, C]"
    using stop_nodes_stop_refs [OF sn] assms(2) by simp
  have t: "tags route \<noteq> None"
    using assms(1) by (auto simp: has_route_tag_def split: option.splits)
  have "\<forall>m \<in> set sn. \<forall>d. node_elements (ref m) = Some d \<longrightarrow> tags d \<noteq> None \<and> lon d \<noteq> None \<and> lat d \<noteq> None"
  proof
    fix m assume "m \<in> set sn"
    then have "ref m \<in> set (map ref sn)" by simp
    then have "ref m \<in> {A, B, C}" unfolding refs by simp
    with assms(3) show "\<forall>d. node_elements (ref m) = Some d \<longrightarrow> tags d \<noteq> None \<and> lon d \<noteq> None \<and> lat d \<noteq> None"
      by fastforce
  qed
  with t obtain G1 where G1: "add_stop_vertices Graph route node_elements sn = Inr G1"
    using add_stop_vertices_total by blast
  let ?G = "add_stop_edges G1 sn"
  have rl: "route_loop Graph [route] node_elements = Inr ?G"
    by (simp add: sn G1)
  have "vertices ?G = {A, B, C}"
    using vertices_route_step [OF sn G1] assms(2,3)
    by (auto simp: vertices_def Graph_def)
  moreover have "edge_set ?G = {{A, B}, {B, C}}"
    using edge_set_route_loop [OF rl] assms(2) by simp
  ultimately show ?thesis using rl by (simp add: create_route_graph_def)
qed

subsection \<open>Edges between consecutive stop members\<close>

text \<open>
  C4. In the graph returned by \<open>create_route_graph\<close>, the edges are exactly the pairs of
  refs at neighbouring positions \<open>i\<close>, \<open>i + 1\<close> of the stop-role member subsequence of some
  route: every such pair is an edge, whether or not its refs are in the node mapping,
  and a route gives at most \<open>len(stop_members) - 1\<close> edges (none when it has no stop
  member, where the range of the loop is empty).
\<close>

theorem route_edges_adjacent_stop_pairs:
  assumes "create_route_graph route_elements node_elements = Inr G"
  shows "edge_set G = (\<Union>r \<in> set route_elements. adjacent_pairs (stop_refs r))
       \<and> (\<forall>r \<in> set route_elements.
            (\<forall>i. i + 1 < length (stop_refs r) \<longrightarrow> {stop_refs r ! i, stop_refs r ! (i + 1)} \<in> edge_set G)
            \<and> card (adjacent_pairs (stop_refs r)) \<le> length (stop_refs r) - 1)"
proof -
  have rl: "route_loop Graph route_elements node_elements = Inr G"
    using assms by (simp add: create_route_graph_def)
  have e: "edge_set G = (\<Union>r \<in> set route_elements. adjacent_pairs (stop_refs r))"
    using rl by (rule edge_set_route_loop)
  have "{stop_refs r ! i, stop_refs r ! (i + 1)} \<in> edge_set G"
    if "r \<in> set route_elements" "i + 1 < length (stop_refs r)" for r i
  proof -
    have "{stop_refs r ! i, stop_refs r ! (i + 1)} \<in> adjacent_pairs (stop_refs r)"
      unfolding adjacent_pairs_def using that(2) by blast
    with that(1) show ?thesis unfolding e by blast
  qed
  with e card_adjacent_pairs show ?thesis by blast
qed

theorem route_edges_adjacent_stop_pairs_witness:
  "\<exists>G. create_route_graph
     [\<lparr>type_el = ''relation'', id_el = 10, tags = Some [''route'' \<mapsto> ''subway''],
       lat = None, lon = None,
       members = Some [\<lparr>ref = 1, role = ''stop''\<rparr>, \<lparr>ref = 2, role = ''stop''\<rparr>,
                       \<lparr>ref = 3, role = ''platform''\<rparr>, \<lparr>ref = 4, role = ''stop''\<rparr>]\<rparr>]
     [1 \<mapsto> \<lparr>type_el = ''node'', id_el = 1, tags = Some [''name'' \<mapsto> ''A''],
             lat = Some 52, lon = Some 13, members = None\<rparr>] = Inr G
     \<and> edge_set G = {{1, 2}, {2, 4}}"
proof -
  let ?rs = "[\<lparr>type_el = ''relation'', id_el = 10, tags = Some [''route'' \<mapsto> ''subway''],
       lat = None, lon = None,
       members = Some [\<lparr>ref = 1, role = ''stop''\<rparr>, \<lparr>ref = 2, role = ''stop''\<rparr>,
                       \<lparr>ref = 3, role = ''platform''\<rparr>, \<lparr>ref = 4, role = ''stop''\<rparr>]\<rparr>]"
  let ?ns = "[1 \<mapsto> \<lparr>type_el = ''node'', id_el = 1, tags = Some [''name'' \<mapsto> ''A''],
             lat = Some 52, lon = Some 13, members = None\<rparr>]"
  have "\<exists>G. create_route_graph ?rs ?ns = Inr G"
    by (simp add: create_route_graph_def stop_nodes_def Graph_def)
  then obtain G where G: "create_route_graph ?rs ?ns = Inr G" ..
  from route_edges_adjacent_stop_pairs [OF G] have "edge_set G = {{1, 2}, {2, 4}}"
    by (simp add: stop_refs_def)
  with G show ?thesis by blast
qed

subsection \<open>The colour of a vertex\<close>

text \<open>
  C8. The claim is that each vertex of the graph built by \<open>create_route_graph\<close> has the
  colour of the last route that contributed it. For one route with the colour tag
  \<open>#FF0000\<close> and the stop members 1 and 2, and a node mapping that holds 1 only, the
  vertex 2 is in the graph, created by \<open>add_edge\<close> for that route, and carries no colour
  attribute at all: the same unguarded edge loop as for the vertex that is not in the
  node mapping.
\<close>

theorem vertex_colour_absent_on_dangling_vertex:
  "create_route_graph
     [\<lparr>type_el = ''relation'', id_el = 10,
       tags = Some [''route'' \<mapsto> ''subway'', ''colour'' \<mapsto> ''#FF0000''],
       lat = None, lon = None,
       members = Some [\<lparr>ref = 1, role = ''stop''\<rparr>, \<lparr>ref = 2, role = ''stop''\<rparr>]\<rparr>]
     [1 \<mapsto> \<lparr>type_el = ''node'', id_el = 1, tags = Some [''name'' \<mapsto> ''A''],
             lat = Some 52, lon = Some 13, members = None\<rparr>]
   = Inr [(1, \<lparr>attrs = \<lparr>pos = Some (13, 52), name = Some ''A'', colour = Some ''#FF0000''\<rparr>, nbrs = [2]\<rparr>),
          (2, \<lparr>attrs = no_attrs, nbrs = [1]\<rparr>)]
   \<and> 2 \<in> vertices
           [(1, \<lparr>attrs = \<lparr>pos = Some (13, 52), name = Some ''A'', colour = Some ''#FF0000''\<rparr>, nbrs = [2]\<rparr>),
            (2, \<lparr>attrs = no_attrs, nbrs = [1]\<rparr>)]
   \<and> node_attr
         [(1, \<lparr>attrs = \<lparr>pos = Some (13, 52), name = Some ''A'', colour = Some ''#FF0000''\<rparr>, nbrs = [2]\<rparr>),
          (2, \<lparr>attrs = no_attrs, nbrs = [1]\<rparr>)] colour 2 = None
   \<and> stop_refs
         \<lparr>type_el = ''relation'', id_el = 10,
          tags = Some [''route'' \<mapsto> ''subway'', ''colour'' \<mapsto> ''#FF0000''],
          lat = None, lon = None,
          members = Some [\<lparr>ref = 1, role = ''stop''\<rparr>, \<lparr>ref = 2, role = ''stop''\<rparr>]\<rparr> = [1, 2]
   \<and> route_colour
         \<lparr>type_el = ''relation'', id_el = 10,
          tags = Some [''route'' \<mapsto> ''subway'', ''colour'' \<mapsto> ''#FF0000''],
          lat = None, lon = None,
          members = Some [\<lparr>ref = 1, role = ''stop''\<rparr>, \<lparr>ref = 2, role = ''stop''\<rparr>]\<rparr> = ''#FF0000''"
  by (simp add: create_route_graph_def stop_nodes_def Graph_def add_node_def add_edge_def
        ensure_node_def attr_update_def no_attrs_def nbr_set_def vertices_def node_attr_def
        stop_refs_def route_colour_def)

text \<open>
  For the vertices that are keys of the node mapping the colour is as described: a vertex
  carries a colour exactly when it is a key of the node mapping and a stop member of
  some route, and the colour is then the one of the last such route in processing
  order, its \<open>colour\<close> tag or the default gray \<open>#808080\<close>. For two routes that share a
  stop and have different colours, the stop has the colour of the later route.
\<close>

lemma vertex_colour_last_route:
  assumes "create_route_graph route_elements node_elements = Inr G"
  shows "node_attr G colour v =
     (if node_elements v \<noteq> None \<and> (\<exists>r \<in> set route_elements. v \<in> set (stop_refs r))
      then Some (route_colour (last [r \<leftarrow> route_elements. v \<in> set (stop_refs r)]))
      else None)"
  using colour_route_loop [of Graph route_elements node_elements G v] assms
  by (simp add: create_route_graph_def node_attr_def Graph_def)

lemma vertex_colour_last_route_example:
  "\<exists>G. create_route_graph
     [\<lparr>type_el = ''relation'', id_el = 10,
       tags = Some [''route'' \<mapsto> ''subway'', ''colour'' \<mapsto> ''#FF0000''],
       lat = None, lon = None,
       members = Some [\<lparr>ref = 1, role = ''stop''\<rparr>, \<lparr>ref = 3, role = ''stop''\<rparr>]\<rparr>,
      \<lparr>type_el = ''relation'', id_el = 11,
       tags = Some [''route'' \<mapsto> ''subway'', ''colour'' \<mapsto> ''#0000FF''],
       lat = None, lon = None,
       members = Some [\<lparr>ref = 2, role = ''stop''\<rparr>, \<lparr>ref = 3, role = ''stop''\<rparr>]\<rparr>,
      \<lparr>type_el = ''relation'', id_el = 12, tags = Some [''route'' \<mapsto> ''subway''],
       lat = None, lon = None,
       members = Some [\<lparr>ref = 4, role = ''stop''\<rparr>]\<rparr>]
     [1 \<mapsto> \<lparr>type_el = ''node'', id_el = 1, tags = Some [''name'' \<mapsto> ''A''],
             lat = Some 52, lon = Some 13, members = None\<rparr>,
      2 \<mapsto> \<lparr>type_el = ''node'', id_el = 2, tags = Some [''name'' \<mapsto> ''B''],
             lat = Some 53, lon = Some 14, members = None\<rparr>,
      3 \<mapsto> \<lparr>type_el = ''node'', id_el = 3, tags = Some [''name'' \<mapsto> ''C''],
             lat = Some 54, lon = Some 15, members = None\<rparr>,
      4 \<mapsto> \<lparr>type_el = ''node'', id_el = 4, tags = Some [''name'' \<mapsto> ''D''],
             lat = Some 55, lon = Some 16, members = None\<rparr>] = Inr G
     \<and> node_attr G colour 1 = Some ''#FF0000''
     \<and> node_attr G colour 3 = Some ''#0000FF''
     \<and> node_attr G colour 4 = Some ''#808080''"
proof -
  let ?rs = "[\<lparr>type_el = ''relation'', id_el = 10,
       tags = Some [''route'' \<mapsto> ''subway'', ''colour'' \<mapsto> ''#FF0000''],
       lat = None, lon = None,
       members = Some [\<lparr>ref = 1, role = ''stop''\<rparr>, \<lparr>ref = 3, role = ''stop''\<rparr>]\<rparr>,
      \<lparr>type_el = ''relation'', id_el = 11,
       tags = Some [''route'' \<mapsto> ''subway'', ''colour'' \<mapsto> ''#0000FF''],
       lat = None, lon = None,
       members = Some [\<lparr>ref = 2, role = ''stop''\<rparr>, \<lparr>ref = 3, role = ''stop''\<rparr>]\<rparr>,
      \<lparr>type_el = ''relation'', id_el = 12, tags = Some [''route'' \<mapsto> ''subway''],
       lat = None, lon = None,
       members = Some [\<lparr>ref = 4, role = ''stop''\<rparr>]\<rparr>]"
  let ?ns = "[1 \<mapsto> \<lparr>type_el = ''node'', id_el = 1, tags = Some [''name'' \<mapsto> ''A''],
             lat = Some 52, lon = Some 13, members = None\<rparr>,
      2 \<mapsto> \<lparr>type_el = ''node'', id_el = 2, tags = Some [''name'' \<mapsto> ''B''],
             lat = Some 53, lon = Some 14, members = None\<rparr>,
      3 \<mapsto> \<lparr>type_el = ''node'', id_el = 3, tags = Some [''name'' \<mapsto> ''C''],
             lat = Some 54, lon = Some 15, members = None\<rparr>,
      4 \<mapsto> \<lparr>type_el = ''node'', id_el = 4, tags = Some [''name'' \<mapsto> ''D''],
             lat = Some 55, lon = Some 16, members = None\<rparr>]"
  have "\<exists>G. create_route_graph ?rs ?ns = Inr G"
    by (simp add: create_route_graph_def stop_nodes_def Graph_def)
  then obtain G where G: "create_route_graph ?rs ?ns = Inr G" ..
  have "node_attr G colour 1 = Some ''#FF0000''"
    using vertex_colour_last_route [OF G, of 1] by (simp add: stop_refs_def route_colour_def)
  moreover have "node_attr G colour 3 = Some ''#0000FF''"
    using vertex_colour_last_route [OF G, of 3] by (simp add: stop_refs_def route_colour_def)
  moreover have "node_attr G colour 4 = Some ''#808080''"
    using vertex_colour_last_route [OF G, of 4] by (simp add: stop_refs_def route_colour_def)
  ultimately show ?thesis using G by blast
qed

section \<open>Properties of the map rendering\<close>

lemma get_node_attributes_Nil [simp]: "get_node_attributes [] key = []"
  by (simp add: get_node_attributes_def)

lemma get_node_attributes_Cons:
  "get_node_attributes ((n, vx) # G) key =
     (case key (attrs vx) of Some x \<Rightarrow> [(n, x)] | None \<Rightarrow> []) @ get_node_attributes G key"
  by (simp add: get_node_attributes_def)

lemma set_get_node_attributes:
  "set (get_node_attributes G key) = {(n, x). \<exists>vx. (n, vx) \<in> set G \<and> key (attrs vx) = Some x}"
proof (induction G)
  case Nil
  then show ?case by simp
next
  case (Cons a G)
  obtain k vx where a: "a = (k, vx)" by (cases a)
  show ?case
    unfolding a get_node_attributes_Cons set_append Cons.IH
    by (cases "key (attrs vx)") auto
qed

lemma get_node_attributes_empty_iff:
  "get_node_attributes G key = [] \<longleftrightarrow> (\<forall>(n, vx) \<in> set G. key (attrs vx) = None)"
  by (induction G) (auto simp: get_node_attributes_Cons split: option.splits)

lemma map_of_get_node_attributes:
  "distinct (map fst G) \<Longrightarrow> map_of (get_node_attributes G key) n = node_attr G key n"
proof (induction G)
  case Nil
  then show ?case by (simp add: node_attr_def)
next
  case (Cons a G)
  obtain k vx where a: "a = (k, vx)" by (cases a)
  have "k \<noteq> n \<or> map_of (get_node_attributes G key) n = None"
    using Cons.prems a by (auto simp: map_of_eq_None_iff set_get_node_attributes image_iff)
  with Cons show ?case
    by (auto simp: a get_node_attributes_Cons node_attr_def split: option.splits)
qed

text \<open>
  C5. \<open>create_folium_map\<close> fails with the \<open>ValueError\<close> of its entry check if and only if no
  vertex of the graph carries a \<open>pos\<close> attribute; when some vertex carries one, it returns a
  map.
\<close>

theorem create_folium_map_fails_iff_no_position:
  "(create_folium_map arith G zoom =
      Inl (ValueError ''Graph nodes must contain a 'pos' attribute with (longitude, latitude).'')
      \<longleftrightarrow> (\<forall>(n, vx) \<in> set G. pos (attrs vx) = None))
   \<and> ((\<exists>(n, vx) \<in> set G. pos (attrs vx) \<noteq> None) \<longrightarrow> (\<exists>m. create_folium_map arith G zoom = Inr m))"
  by (auto simp: create_folium_map_def Let_def get_node_attributes_empty_iff)

theorem create_folium_map_fails_iff_no_position_witness:
  "\<forall>arith.
     create_folium_map arith
       [(5, \<lparr>attrs = no_attrs, nbrs = [6]\<rparr>), (6, \<lparr>attrs = no_attrs, nbrs = [5]\<rparr>)] 12 =
       Inl (ValueError ''Graph nodes must contain a 'pos' attribute with (longitude, latitude).'')
     \<and> (\<exists>(n, vx) \<in> set [(5, \<lparr>attrs = \<lparr>pos = Some (13, 52), name = None, colour = None\<rparr>, nbrs = []\<rparr>)].
           pos (attrs vx) \<noteq> None)
     \<and> (\<exists>m. create_folium_map arith
               [(5, \<lparr>attrs = \<lparr>pos = Some (13, 52), name = None, colour = None\<rparr>, nbrs = []\<rparr>)] 12 = Inr m)"
proof
  fix arith
  show "create_folium_map arith
       [(5, \<lparr>attrs = no_attrs, nbrs = [6]\<rparr>), (6, \<lparr>attrs = no_attrs, nbrs = [5]\<rparr>)] 12 =
       Inl (ValueError ''Graph nodes must contain a 'pos' attribute with (longitude, latitude).'')
     \<and> (\<exists>(n, vx) \<in> set [(5, \<lparr>attrs = \<lparr>pos = Some (13, 52), name = None, colour = None\<rparr>, nbrs = []\<rparr>)].
           pos (attrs vx) \<noteq> None)
     \<and> (\<exists>m. create_folium_map arith
               [(5, \<lparr>attrs = \<lparr>pos = Some (13, 52), name = None, colour = None\<rparr>, nbrs = []\<rparr>)] 12 = Inr m)"
    using create_folium_map_fails_iff_no_position
            [of arith "[(5, \<lparr>attrs = no_attrs, nbrs = [6]\<rparr>), (6, \<lparr>attrs = no_attrs, nbrs = [5]\<rparr>)]" 12]
          create_folium_map_fails_iff_no_position
            [of arith "[(5, \<lparr>attrs = \<lparr>pos = Some (13, 52), name = None, colour = None\<rparr>, nbrs = []\<rparr>)]" 12]
    by (simp add: no_attrs_def)
qed

lemma filter_circle_markers: "filter is_PolyLine (circle_markers P L C) = []"
  by (auto simp: circle_markers_def Let_def filter_empty_conv)

lemma poly_lines_Nil [simp]: "poly_lines [] P = []"
  by (simp add: poly_lines_def)

lemma poly_lines_Cons:
  "poly_lines ((u, v) # es) P =
     (case map_of P u of
        None \<Rightarrow> []
      | Some pu \<Rightarrow>
          (case map_of P v of
             None \<Rightarrow> []
           | Some pv \<Rightarrow> [PolyLine [(snd pu, fst pu), (snd pv, fst pv)] ''blue'' 2]))
     @ poly_lines es P"
  by (simp add: poly_lines_def)

lemma filter_poly_lines: "filter is_PolyLine (poly_lines es P) = poly_lines es P"
  by (induction es) (auto simp: poly_lines_Cons split: option.splits)

lemma set_poly_lines:
  "set (poly_lines es P) =
     {PolyLine [(snd pu, fst pu), (snd pv, fst pv)] ''blue'' 2 | u v pu pv.
        (u, v) \<in> set es \<and> map_of P u = Some pu \<and> map_of P v = Some pv}"
proof (induction es)
  case Nil
  then show ?case by simp
next
  case (Cons e es)
  obtain u v where e: "e = (u, v)" by (cases e)
  show ?case
    unfolding e poly_lines_Cons set_append Cons.IH
    by (cases "map_of P u"; cases "map_of P v") (auto; blast)+
qed

lemma length_poly_lines:
  "length (poly_lines es P) =
     length [(u, v) \<leftarrow> es. map_of P u \<noteq> None \<and> map_of P v \<noteq> None]"
  by (induction es) (auto simp: poly_lines_Cons split: option.splits)

text \<open>
  C10. For a graph accepted by \<open>create_folium_map\<close>, the lines on the returned map are
  exactly the lines between the positions of the endpoints of the graph edges both of
  whose endpoints carry a \<open>pos\<close> attribute, one line for each such edge; an edge with an
  endpoint without a position, such as a vertex created by \<open>add_edge\<close> alone, gets no
  line.
\<close>

theorem drawn_lines_edges_with_positions:
  assumes "create_folium_map arith G zoom = Inr m" and "distinct (map fst G)"
  shows "set [c \<leftarrow> children m. is_PolyLine c] =
           {PolyLine [(snd pu, fst pu), (snd pv, fst pv)] ''blue'' 2 | u v pu pv.
              (u, v) \<in> set (edges G) \<and> node_attr G pos u = Some pu \<and> node_attr G pos v = Some pv}
       \<and> length [c \<leftarrow> children m. is_PolyLine c] =
           length [(u, v) \<leftarrow> edges G. node_attr G pos u \<noteq> None \<and> node_attr G pos v \<noteq> None]"
proof -
  have c: "children m = circle_markers (get_node_attributes G pos) (get_node_attributes G name)
                          (get_node_attributes G colour)
                        @ poly_lines (edges G) (get_node_attributes G pos)"
    using assms(1) by (auto simp: create_folium_map_def Let_def split: if_splits)
  have l: "[c \<leftarrow> children m. is_PolyLine c] = poly_lines (edges G) (get_node_attributes G pos)"
    unfolding c by (simp add: filter_circle_markers filter_poly_lines)
  have p: "map_of (get_node_attributes G pos) n = node_attr G pos n" for n
    using assms(2) by (rule map_of_get_node_attributes)
  show ?thesis
    unfolding l set_poly_lines length_poly_lines p by simp
qed

theorem drawn_lines_edges_with_positions_witness:
  "\<forall>arith.
     distinct (map fst
       [(1, \<lparr>attrs = \<lparr>pos = Some (13, 52), name = Some ''A'', colour = Some ''#808080''\<rparr>, nbrs = [2]\<rparr>),
        (2, \<lparr>attrs = \<lparr>pos = Some (14, 53), name = Some ''B'', colour = Some ''#808080''\<rparr>, nbrs = [1, 3]\<rparr>),
        (3::int, \<lparr>attrs = no_attrs, nbrs = [2]\<rparr>)])
     \<and> (\<exists>m. create_folium_map arith
          [(1, \<lparr>attrs = \<lparr>pos = Some (13, 52), name = Some ''A'', colour = Some ''#808080''\<rparr>, nbrs = [2]\<rparr>),
           (2, \<lparr>attrs = \<lparr>pos = Some (14, 53), name = Some ''B'', colour = Some ''#808080''\<rparr>, nbrs = [1, 3]\<rparr>),
           (3, \<lparr>attrs = no_attrs, nbrs = [2]\<rparr>)] 12 = Inr m
        \<and> edges
          [(1, \<lparr>attrs = \<lparr>pos = Some (13, 52), name = Some ''A'', colour = Some ''#808080''\<rparr>, nbrs = [2]\<rparr>),
           (2, \<lparr>attrs = \<lparr>pos = Some (14, 53), name = Some ''B'', colour = Some ''#808080''\<rparr>, nbrs = [1, 3]\<rparr>),
           (3, \<lparr>attrs = no_attrs, nbrs = [2]\<rparr>)] = [(1, 2), (2, 3)]
        \<and> length [c \<leftarrow> children m. is_PolyLine c] = 1)"
proof
  fix arith
  let ?G = "[(1, \<lparr>attrs = \<lparr>pos = Some (13, 52), name = Some ''A'', colour = Some ''#808080''\<rparr>, nbrs = [2]\<rparr>),
         (2, \<lparr>attrs = \<lparr>pos = Some (14, 53), name = Some ''B'', colour = Some ''#808080''\<rparr>, nbrs = [1, 3]\<rparr>),
         (3::int, \<lparr>attrs = no_attrs, nbrs = [2]\<rparr>)]"
  have d: "distinct (map fst ?G)" by simp
  have e: "edges ?G = [(1, 2), (2, 3)]" by (simp add: edges_def)
  have "\<exists>m. create_folium_map arith ?G 12 = Inr m"
    by (simp add: create_folium_map_def Let_def get_node_attributes_Cons)
  then obtain m where m: "create_folium_map arith ?G 12 = Inr m" ..
  from drawn_lines_edges_with_positions [OF m d]
  have "length [c \<leftarrow> children m. is_PolyLine c] = 1"
    unfolding e by (simp add: node_attr_def no_attrs_def)
  with d e m show "distinct (map fst ?G)
     \<and> (\<exists>m. create_folium_map arith ?G 12 = Inr m
        \<and> edges ?G = [(1, 2), (2, 3)]
        \<and> length [c \<leftarrow> children m. is_PolyLine c] = 1)" by blast
qed

end
